theory Spec2Isabelle
  imports Main "HOL-Library.Word"
begin

section \<open>Data model\<close>

text \<open>
  The program is one C++ file, \<^verbatim>\<open>tuxliketimeout.cpp\<close>, built for Windows. A
  \<^verbatim>\<open>wchar_t\<close> is a 16-bit code unit and a \<^verbatim>\<open>std::wstring\<close> a finite sequence
  of them; \<^verbatim>\<open>DWORD\<close> and \<^verbatim>\<open>unsigned\<close> are 32-bit unsigned integers, \<^verbatim>\<open>int\<close> is
  a 32-bit signed integer. All three integer types are words of their width: addition and
  multiplication wrap around, \<open>unat\<close> reads a word as unsigned and \<open>sint\<close> as two's
  complement.
\<close>

type_synonym wchar_t = "16 word"
type_synonym wstring = "wchar_t list"
type_synonym DWORD = "32 word"
type_synonym HANDLE = "64 word"

text \<open>The character literals the source compares with and appends.\<close>

definition BACKSLASH :: wchar_t where "BACKSLASH = 92"
definition DQUOTE :: wchar_t where "DQUOTE = 34"
definition SPACE :: wchar_t where "SPACE = 32"
definition TAB :: wchar_t where "TAB = 9"
definition NEWLINE :: wchar_t where "NEWLINE = 10"
definition VTAB :: wchar_t where "VTAB = 11"

text \<open>
  \<open>L s\<close> is the wide string literal \<^verbatim>\<open>L"s"\<close> of an ASCII text \<open>s\<close>; it is only used
  to write concrete inputs.
\<close>

definition L :: "string \<Rightarrow> wstring" where
  "L s = map (\<lambda>c. of_nat (of_char c)) s"

text \<open>The exit codes defined at lines 30 to 33.\<close>

definition EXIT_TIMEDOUT :: "32 word" where "EXIT_TIMEDOUT = 124"
definition EXIT_CANCELED :: "32 word" where "EXIT_CANCELED = 125"
definition EXIT_CANNOT_INVOKE :: "32 word" where "EXIT_CANNOT_INVOKE = 126"
definition EXIT_ENOENT :: "32 word" where "EXIT_ENOENT = 127"

text \<open>
  The constants of \<^verbatim>\<open>windows.h\<close> that \<^verbatim>\<open>wmain\<close> compares with. The header is not
  part of the repository; the values are those of the Windows SDK
  (\<^verbatim>\<open>WAIT_OBJECT_0 = 0\<close>, \<^verbatim>\<open>WAIT_TIMEOUT = 0x102\<close>, \<^verbatim>\<open>WAIT_FAILED = 0xFFFFFFFF\<close>,
  \<^verbatim>\<open>ERROR_FILE_NOT_FOUND = 2\<close>).
\<close>

definition WAIT_OBJECT_0 :: DWORD where "WAIT_OBJECT_0 = 0"
definition WAIT_TIMEOUT :: DWORD where "WAIT_TIMEOUT = 258"
definition WAIT_FAILED :: DWORD where "WAIT_FAILED = 4294967295"
definition ERROR_FILE_NOT_FOUND :: DWORD where "ERROR_FILE_NOT_FOUND = 2"

section \<open>ArgvQuote (lines 51 to 92)\<close>

text \<open>
  \<^verbatim>\<open>Argument.find_first_of(chars)\<close>: the position of the first character of
  \<open>Argument\<close> that occurs in \<open>chars\<close>; \<open>None\<close> stands for \<^verbatim>\<open>npos\<close>.
\<close>

fun find_first_of :: "wstring \<Rightarrow> wstring \<Rightarrow> nat option" where
  "find_first_of [] chars = None"
| "find_first_of (c # s) chars =
     (if c \<in> set chars then Some 0 else map_option Suc (find_first_of s chars))"

text \<open>
  The iterator \<open>It\<close> is modelled by the part of \<open>Argument\<close> from its position on, so
  that \<^verbatim>\<open>It == Argument.end()\<close> is \<open>It = []\<close>, \<^verbatim>\<open>*It\<close> is the head and \<^verbatim>\<open>++It\<close>
  the tail.

  The inner loop of lines 67 to 70: it advances \<open>It\<close> over a run of backslashes and
  counts them in the \<^verbatim>\<open>unsigned\<close> variable \<open>NumberBackslashes\<close>, which wraps around
  at \<open>2 ^ 32\<close>.
\<close>

fun count_backslashes :: "wstring \<Rightarrow> 32 word \<Rightarrow> wstring \<times> 32 word" where
  "count_backslashes [] NumberBackslashes = ([], NumberBackslashes)"
| "count_backslashes (c # It) NumberBackslashes =
     (if c = BACKSLASH then count_backslashes It (NumberBackslashes + 1)
      else (c # It, NumberBackslashes))"

text \<open>
  The outer loop of lines 64 to 88, \<^verbatim>\<open>for (auto It = Argument.begin(); ; ++It)\<close>. It has
  no exit condition of its own: it ends only at the \<^verbatim>\<open>break\<close> of line 77. Not
  returning is the value \<open>None\<close>. The counts given to \<^verbatim>\<open>append\<close> are computed in
  \<^verbatim>\<open>unsigned\<close> arithmetic (\<^verbatim>\<open>NumberBackslashes * 2\<close>, \<^verbatim>\<open>NumberBackslashes * 2 + 1\<close>)
  and only then widened to \<^verbatim>\<open>size_t\<close>.
\<close>

partial_function (option) ArgvQuote_loop :: "wstring \<Rightarrow> wstring \<Rightarrow> wstring option" where
  "ArgvQuote_loop It CommandLine =
     (case count_backslashes It 0 of
        ([], NumberBackslashes) \<Rightarrow>
          Some (CommandLine @ replicate (unat (NumberBackslashes * 2)) BACKSLASH)
      | (c # It', NumberBackslashes) \<Rightarrow>
          if c = DQUOTE
          then ArgvQuote_loop It'
                 (CommandLine @ replicate (unat (NumberBackslashes * 2 + 1)) BACKSLASH @ [c])
          else ArgvQuote_loop It'
                 (CommandLine @ replicate (unat NumberBackslashes) BACKSLASH @ [c]))"

declare ArgvQuote_loop.simps [code]

text \<open>
  \<open>ArgvQuote Argument CommandLine Force\<close> returns the contents of the buffer
  \<open>CommandLine\<close> after the call. \<open>Argument\<close> is a \<^verbatim>\<open>const\<close> reference to a string
  other than the buffer (in \<^verbatim>\<open>wmain\<close> it is a temporary), so it is a value here.
\<close>

definition ArgvQuote :: "wstring \<Rightarrow> wstring \<Rightarrow> bool \<Rightarrow> wstring option" where
  "ArgvQuote Argument CommandLine Force =
     (if Force = False \<and> Argument \<noteq> []
         \<and> find_first_of Argument [SPACE, TAB, NEWLINE, VTAB, DQUOTE] = None
      then Some (CommandLine @ Argument)
      else map_option (\<lambda>cl. cl @ [DQUOTE])
             (ArgvQuote_loop Argument (CommandLine @ [DQUOTE])))"

text \<open>
  The characters the loop appends for the part \<open>It\<close> of the argument: what it leaves
  in an empty buffer. (\<open>ArgvQuote_loop_escaped\<close> below shows that the loop always
  returns, and appends just these characters to any buffer.)
\<close>

definition escaped :: "wstring \<Rightarrow> wstring" where
  "escaped It = the (ArgvQuote_loop It [])"

text \<open>
  What a quoted argument's output is measured by: the number of backslashes that stand
  directly before the last character of \<open>out\<close> (the closing quotation mark).
\<close>

definition backslashes_before_closing_quote :: "wstring \<Rightarrow> nat" where
  "backslashes_before_closing_quote out =
     length (takeWhile (\<lambda>c. c = BACKSLASH) (rev (butlast out)))"

text \<open>
  The length of the run of backslashes that \<open>s\<close> begins with, and the length of the
  longest run of consecutive backslashes anywhere in \<open>s\<close>: the quantity the 32-bit
  counter \<open>NumberBackslashes\<close> has to hold.
\<close>

fun leading_backslashes :: "wstring \<Rightarrow> nat" where
  "leading_backslashes [] = 0"
| "leading_backslashes (c # s) = (if c = BACKSLASH then Suc (leading_backslashes s) else 0)"

fun longest_backslash_run :: "wstring \<Rightarrow> nat" where
  "longest_backslash_run [] = 0"
| "longest_backslash_run (c # s) = max (leading_backslashes (c # s)) (longest_backslash_run s)"

section \<open>The command line (wmain, lines 143 to 149)\<close>

text \<open>
  The loop \<^verbatim>\<open>for (int argi = 2; argi < argc; argi++)\<close>, with the test
  \<^verbatim>\<open>if (argi < argc)\<close> of line 146 as the source has it.
\<close>

function command_line_loop ::
  "wstring list \<Rightarrow> int \<Rightarrow> int \<Rightarrow> wstring \<Rightarrow> wstring option" where
  "command_line_loop argv argc argi command_line =
     (if argi < argc then
        (case ArgvQuote (argv ! nat argi) command_line False of
           None \<Rightarrow> None
         | Some quoted \<Rightarrow>
             command_line_loop argv argc (argi + 1)
               (if argi < argc then quoted @ [SPACE] else quoted))
      else Some command_line)"
  by pat_completeness auto
termination
  by (relation "measure (\<lambda>(argv, argc, argi, command_line). nat (argc - argi))") auto

declare command_line_loop.simps [simp del]

text \<open>
  The value of \<open>command_line\<close> at line 152, for the argument vector \<open>argv\<close> of
  \<open>argc = length argv\<close> strings.
\<close>

definition build_command_line :: "wstring list \<Rightarrow> wstring option" where
  "build_command_line argv = command_line_loop argv (int (length argv)) 2 []"

section \<open>wmain (lines 116 to 221)\<close>

text \<open>
  The operating system and the C++ library are the environment of \<^verbatim>\<open>wmain\<close>: a record
  of what each call answers.
  \<^item> \<open>stoul\<close>: \<^verbatim>\<open>std::stoul\<close>, which returns a number or throws one of two exceptions;
  \<^item> \<open>CreateProcessW\<close>: on the command line, either \<open>Inl e\<close> (the call returned 0 and
    \<^verbatim>\<open>GetLastError()\<close> is \<open>e\<close>) or \<open>Inr pi\<close>, the two handles it stored;
  \<^item> \<open>WaitForSingleObject\<close>: the answer of the wait of line 186;
  \<^item> \<open>TerminateProcess\<close>: whether the call of line 194 returned nonzero;
  \<^item> \<open>WaitForSingleObject_terminated\<close>: the answer of the wait of line 199, which the
    system gives after the termination request;
  \<^item> \<open>GetExitCodeProcess\<close>: \<open>Some code\<close> when the call of line 208 returned nonzero
    and stored \<open>code\<close>, \<open>None\<close> when it returned 0.
\<close>

datatype stoul_result = invalid_argument | out_of_range | Converted DWORD

record PROCESS_INFORMATION =
  hProcess :: HANDLE
  hThread :: HANDLE

record os =
  stoul :: "wstring \<Rightarrow> stoul_result"
  CreateProcessW :: "wstring \<Rightarrow> DWORD + PROCESS_INFORMATION"
  WaitForSingleObject :: "HANDLE \<Rightarrow> DWORD \<Rightarrow> DWORD"
  TerminateProcess :: "HANDLE \<Rightarrow> DWORD \<Rightarrow> bool"
  WaitForSingleObject_terminated :: "HANDLE \<Rightarrow> DWORD \<Rightarrow> DWORD"
  GetExitCodeProcess :: "HANDLE \<Rightarrow> DWORD option"

text \<open>
  The places where \<^verbatim>\<open>wmain\<close> writes a diagnostic to \<^verbatim>\<open>std::wcerr\<close> and returns, named
  as the specification names the failure kinds: lines 126 (\<open>UsageError\<close>), 136 and 139
  (\<open>InvalidTimeout\<close>), 170 (\<open>CommandNotFound\<close>), 175 (\<open>CannotInvoke\<close>), 189
  (\<open>WaitFailed\<close>), 195 (\<open>TerminateFailed\<close>), 200 (\<open>PostTerminateCheckFailed\<close>), 211
  (\<open>ExitCodeUnavailable\<close>) and 217 (\<open>UnexpectedWaitResult\<close>).
\<close>

datatype failure =
    UsageError | InvalidTimeout | CommandNotFound | CannotInvoke | WaitFailed
  | UnexpectedWaitResult | TerminateFailed | PostTerminateCheckFailed | ExitCodeUnavailable

text \<open>
  What a run of \<^verbatim>\<open>wmain\<close> leaves behind: the \<^verbatim>\<open>int\<close> it returns (\<open>exit_code\<close>, 32
  bits), the diagnostic it wrote, if any, and the handles given to \<^verbatim>\<open>CloseHandle\<close>, in
  the order of the calls.
\<close>

record run =
  exit_code :: "32 word"
  wcerr :: "failure option"
  closed :: "HANDLE list"

text \<open>
  An error return: the diagnostic is written to \<^verbatim>\<open>std::wcerr\<close> and \<open>code\<close> is returned.
  No handle is closed by the statement itself.
\<close>

definition fail :: "failure \<Rightarrow> 32 word \<Rightarrow> run" where
  "fail diagnostic code = \<lparr>exit_code = code, wcerr = Some diagnostic, closed = []\<rparr>"

text \<open>
  \<^verbatim>\<open>HandleGuard\<close> (lines 102 to 112): the destructor calls \<^verbatim>\<open>CloseHandle\<close> on the
  handle when the scope the guard was declared in is left, after the rest of that scope
  has produced its result.
\<close>

definition HandleGuard :: "HANDLE \<Rightarrow> run \<Rightarrow> run" where
  "HandleGuard m_handle scope = scope\<lparr>closed := closed scope @ [m_handle]\<rparr>"

text \<open>
  Lines 186 to 220, the \<^verbatim>\<open>switch\<close> on the result of the wait. Line 199 tests
  \<^verbatim>\<open>!WaitForSingleObject(pi.hThread, 0)\<close>, that is, whether the \<^verbatim>\<open>DWORD\<close> returned
  is 0. Line 209 returns the \<^verbatim>\<open>DWORD\<close> \<open>error_code\<close> as an \<^verbatim>\<open>int\<close>: the same 32 bits.
\<close>

definition wait_switch :: "os \<Rightarrow> PROCESS_INFORMATION \<Rightarrow> DWORD \<Rightarrow> run" where
  "wait_switch sys pi time_out =
     (let w = WaitForSingleObject sys (hProcess pi) time_out in
      if w = WAIT_FAILED then fail WaitFailed EXIT_CANCELED
      else if w = WAIT_TIMEOUT then
        (if \<not> TerminateProcess sys (hProcess pi) 0
         then fail TerminateFailed EXIT_CANCELED
         else if WaitForSingleObject_terminated sys (hThread pi) 0 = 0
         then fail PostTerminateCheckFailed EXIT_CANCELED
         else \<lparr>exit_code = EXIT_TIMEDOUT, wcerr = None, closed = []\<rparr>)
      else if w = WAIT_OBJECT_0 then
        (case GetExitCodeProcess sys (hProcess pi) of
           Some error_code \<Rightarrow> \<lparr>exit_code = error_code, wcerr = None, closed = []\<rparr>
         | None \<Rightarrow> fail ExitCodeUnavailable EXIT_CANCELED)
      else fail UnexpectedWaitResult EXIT_CANCELED)"

text \<open>
  \<^verbatim>\<open>wmain\<close> on the argument vector \<open>argv\<close> (\<open>argc\<close> is its length). The two guards of
  lines 182 and 183 are declared after the process was created, first the one of the
  process handle, then the one of the thread handle; C++ destroys them in reverse order
  at every \<^verbatim>\<open>return\<close> that follows. The result is \<open>None\<close> only if building the command
  line does not return. Windows starts \<^verbatim>\<open>wmain\<close> with at least the program's own name in
  \<open>argv\<close>; the usage message of line 126 reads \<^verbatim>\<open>argv[0]\<close>.
\<close>

definition wmain :: "os \<Rightarrow> wstring list \<Rightarrow> run option" where
  "wmain sys argv =
     (let argc = int (length argv) in
      if argc < 3 then Some (fail UsageError EXIT_CANCELED)
      else
        (case stoul sys (argv ! 1) of
           invalid_argument \<Rightarrow> Some (fail InvalidTimeout EXIT_CANCELED)
         | out_of_range \<Rightarrow> Some (fail InvalidTimeout EXIT_CANCELED)
         | Converted time_out \<Rightarrow>
             (case command_line_loop argv argc 2 [] of
                None \<Rightarrow> None
              | Some command_line \<Rightarrow>
                  (case CreateProcessW sys command_line of
                     Inl last_error \<Rightarrow>
                       if last_error = ERROR_FILE_NOT_FOUND
                       then Some (fail CommandNotFound EXIT_ENOENT)
                       else Some (fail CannotInvoke EXIT_CANNOT_INVOKE)
                   | Inr pi \<Rightarrow>
                       Some (HandleGuard (hProcess pi)
                              (HandleGuard (hThread pi) (wait_switch sys pi time_out)))))))"

text \<open>
  An environment for concrete runs: every call answers with a fixed value, whatever its
  arguments.
\<close>

definition scripted_os ::
  "stoul_result \<Rightarrow> DWORD + PROCESS_INFORMATION \<Rightarrow> DWORD \<Rightarrow> bool \<Rightarrow> DWORD \<Rightarrow> DWORD option
     \<Rightarrow> os" where
  "scripted_os parsed created waited terminated probed code =
     \<lparr>stoul = (\<lambda>s. parsed),
      CreateProcessW = (\<lambda>command_line. created),
      WaitForSingleObject = (\<lambda>h time_out. waited),
      TerminateProcess = (\<lambda>h code. terminated),
      WaitForSingleObject_terminated = (\<lambda>h time_out. probed),
      GetExitCodeProcess = (\<lambda>h. code)\<rparr>"

section \<open>The argv tokenizer\<close>

text \<open>
  Modelled from the spec: the "standard Windows argv tokenizer (CommandLineToArgvW
  convention)" that the round-trip property is stated against. It is a function of the
  operating system, not of this repository, and the specification only names it. It
  reads the first token of a command line, the program name, by a rule of its own: if
  the command line begins with a quotation mark, the name is everything up to the next
  quotation mark, and backslashes stand for themselves; otherwise the name is everything
  up to the next space or tab. \<open>program_name\<close> gives the name and what follows it.
\<close>

fun program_name :: "wstring \<Rightarrow> wstring \<times> wstring" where
  "program_name [] = ([], [])"
| "program_name (c # s) =
     (if c = DQUOTE
      then (takeWhile (\<lambda>x. x \<noteq> DQUOTE) s, drop 1 (dropWhile (\<lambda>x. x \<noteq> DQUOTE) s))
      else (takeWhile (\<lambda>x. x \<noteq> SPACE \<and> x \<noteq> TAB) (c # s),
            dropWhile (\<lambda>x. x \<noteq> SPACE \<and> x \<noteq> TAB) (c # s)))"

text \<open>
  Modelled from the spec: the arguments after the program name, read by the convention's
  published rules, the ones the source's comment cites: arguments are separated by
  spaces and tabs; a quotation mark that follows an even number \<open>2 * n\<close> of backslashes
  gives \<open>n\<close> backslashes and begins or ends a quoted part, in which spaces and tabs do
  not separate; a quotation mark that follows an odd number \<open>2 * n + 1\<close> of backslashes
  gives \<open>n\<close> backslashes and a literal quotation mark; backslashes not followed by a
  quotation mark stand for themselves. The state is: whether an argument has begun
  (\<open>in_arg\<close>), whether a quoted part is open (\<open>in_quotes\<close>), the number \<open>n\<close> of
  backslashes read and not yet given out, and the argument read so far (\<open>arg\<close>).
\<close>

fun tokens :: "bool \<Rightarrow> bool \<Rightarrow> nat \<Rightarrow> wstring \<Rightarrow> wstring \<Rightarrow> wstring list" where
  "tokens in_arg in_quotes n arg [] =
     (if in_arg then [arg @ replicate n BACKSLASH] else [])"
| "tokens in_arg in_quotes n arg (c # s) =
     (if (c = SPACE \<or> c = TAB) \<and> \<not> in_quotes then
        (if in_arg then (arg @ replicate n BACKSLASH) # tokens False False 0 [] s
         else tokens False False 0 [] s)
      else if c = BACKSLASH then tokens True in_quotes (Suc n) arg s
      else if c = DQUOTE then
        (if even n
         then tokens True (\<not> in_quotes) 0 (arg @ replicate (n div 2) BACKSLASH) s
         else tokens True in_quotes 0 (arg @ replicate (n div 2) BACKSLASH @ [DQUOTE]) s)
      else tokens True in_quotes 0 (arg @ replicate n BACKSLASH @ [c]) s)"

text \<open>
  Modelled from the spec: the tokenizer on a whole command line, the program name first
  and the arguments after it.
\<close>

definition split_command_line :: "wstring \<Rightarrow> wstring list" where
  "split_command_line command_line =
     (case program_name command_line of
        (name, rest) \<Rightarrow> name # tokens False False 0 [] rest)"

section \<open>Facts about ArgvQuote\<close>

lemmas chars_defs = BACKSLASH_def DQUOTE_def SPACE_def TAB_def NEWLINE_def VTAB_def

lemma replicate_numeral: "replicate (numeral k) x = x # replicate (pred_numeral k) x"
  by (simp add: numeral_eq_Suc)

lemma unat_count: "k < 2 ^ 32 \<Longrightarrow> unat (of_nat k :: 32 word) = k"
  by (simp add: unat_of_nat)

lemma unat_twice: "k < 2 ^ 31 \<Longrightarrow> unat (of_nat k * 2 :: 32 word) = 2 * k"
proof -
  assume k: "k < 2 ^ 31"
  have "(of_nat k * 2 :: 32 word) = of_nat (2 * k)" by simp
  moreover have "2 * k < 2 ^ 32" using k by simp
  ultimately show ?thesis by (simp only: unat_of_nat) simp
qed

lemma unat_twice_plus_one:
  "k < 2 ^ 31 \<Longrightarrow> unat (of_nat k * 2 + 1 :: 32 word) = 2 * k + 1"
proof -
  assume k: "k < 2 ^ 31"
  have "(of_nat k * 2 + 1 :: 32 word) = of_nat (2 * k + 1)" by simp
  moreover have "2 * k + 1 < 2 ^ 32" using k by simp
  ultimately show ?thesis by (simp only: unat_of_nat) simp
qed

lemma find_first_of_None:
  "find_first_of s chars = None \<longleftrightarrow> set s \<inter> set chars = {}"
  by (induction s) auto

text \<open>The inner loop skips a run of backslashes and adds its length to the counter.\<close>

lemma count_backslashes_run:
  "count_backslashes (replicate k BACKSLASH @ rest) n = count_backslashes rest (n + of_nat k)"
  by (induction k arbitrary: n) (simp_all add: ac_simps)

text \<open>Every string is a run of backslashes, followed by nothing or by another character.\<close>

lemma run_split:
  "\<exists>k. It = replicate k BACKSLASH
     \<or> (\<exists>c It'. It = replicate k BACKSLASH @ c # It' \<and> c \<noteq> BACKSLASH)"
proof (induction It)
  case Nil
  show ?case by (rule exI [of _ 0]) simp
next
  case (Cons a It)
  show ?case
  proof (cases "a = BACKSLASH")
    case False
    show ?thesis by (rule exI [of _ 0]) (use False in simp)
  next
    case True
    from Cons obtain k where k: "It = replicate k BACKSLASH
     \<or> (\<exists>c It'. It = replicate k BACKSLASH @ c # It' \<and> c \<noteq> BACKSLASH)" by blast
    show ?thesis
      by (rule exI [of _ "Suc k"]) (use k True in auto)
  qed
qed

text \<open>One pass of the outer loop, in each of its three branches.\<close>

lemma ArgvQuote_loop_end:
  "ArgvQuote_loop (replicate k BACKSLASH) cl
     = Some (cl @ replicate (unat (of_nat k * 2 :: 32 word)) BACKSLASH)"
proof -
  have "count_backslashes (replicate k BACKSLASH) 0 = ([], of_nat k)"
    using count_backslashes_run [of k "[]" 0] by simp
  then show ?thesis by (subst ArgvQuote_loop.simps) simp
qed

lemma ArgvQuote_loop_quote:
  "ArgvQuote_loop (replicate k BACKSLASH @ DQUOTE # It') cl
     = ArgvQuote_loop It'
         (cl @ replicate (unat (of_nat k * 2 + 1 :: 32 word)) BACKSLASH @ [DQUOTE])"
proof -
  have "DQUOTE \<noteq> BACKSLASH" by (simp add: DQUOTE_def BACKSLASH_def)
  then have "count_backslashes (replicate k BACKSLASH @ DQUOTE # It') 0
      = (DQUOTE # It', of_nat k)"
    by (simp add: count_backslashes_run)
  then show ?thesis by (subst ArgvQuote_loop.simps) simp
qed

lemma ArgvQuote_loop_other:
  assumes "c \<noteq> BACKSLASH" "c \<noteq> DQUOTE"
  shows "ArgvQuote_loop (replicate k BACKSLASH @ c # It') cl
     = ArgvQuote_loop It' (cl @ replicate (unat (of_nat k :: 32 word)) BACKSLASH @ [c])"
proof -
  have "count_backslashes (replicate k BACKSLASH @ c # It') 0 = (c # It', of_nat k)"
    using assms by (simp add: count_backslashes_run)
  then show ?thesis using assms by (subst ArgvQuote_loop.simps) simp
qed

text \<open>
  The loop returns on every input, and what it appends does not depend on the buffer:
  by induction on the length of what is left of the argument, which every pass shortens.
\<close>

lemma ArgvQuote_loop_appends:
  "\<exists>enc. \<forall>cl. ArgvQuote_loop It cl = Some (cl @ enc)"
proof (induction "length It" arbitrary: It rule: less_induct)
  case less
  from run_split [of It] obtain k where
    k: "It = replicate k BACKSLASH
     \<or> (\<exists>c It'. It = replicate k BACKSLASH @ c # It' \<and> c \<noteq> BACKSLASH)" by blast
  then show ?case
  proof
    assume "It = replicate k BACKSLASH"
    then show ?thesis using ArgvQuote_loop_end by blast
  next
    assume "\<exists>c It'. It = replicate k BACKSLASH @ c # It' \<and> c \<noteq> BACKSLASH"
    then obtain c It' where It: "It = replicate k BACKSLASH @ c # It'" and c: "c \<noteq> BACKSLASH"
      by blast
    have "length It' < length It" by (simp add: It)
    from less [OF this] obtain enc where enc: "\<And>cl. ArgvQuote_loop It' cl = Some (cl @ enc)"
      by blast
    show ?thesis
    proof (cases "c = DQUOTE")
      case True
      have "\<forall>cl. ArgvQuote_loop It cl
          = Some (cl @ (replicate (unat (of_nat k * 2 + 1 :: 32 word)) BACKSLASH @ [DQUOTE] @ enc))"
        by (simp add: It True ArgvQuote_loop_quote enc)
      then show ?thesis by blast
    next
      case False
      have "\<forall>cl. ArgvQuote_loop It cl
          = Some (cl @ (replicate (unat (of_nat k :: 32 word)) BACKSLASH @ [c] @ enc))"
        by (simp add: It ArgvQuote_loop_other [OF c False] enc)
      then show ?thesis by blast
    qed
  qed
qed

lemma ArgvQuote_loop_escaped: "ArgvQuote_loop It cl = Some (cl @ escaped It)"
proof -
  from ArgvQuote_loop_appends [of It] obtain enc
    where enc: "\<And>cl. ArgvQuote_loop It cl = Some (cl @ enc)" by blast
  have "escaped It = enc" using enc [of "[]"] by (simp add: escaped_def)
  then show ?thesis using enc [of cl] by simp
qed

lemma escaped_end:
  "escaped (replicate k BACKSLASH) = replicate (unat (of_nat k * 2 :: 32 word)) BACKSLASH"
  using ArgvQuote_loop_end [of k "[]"] by (simp add: escaped_def)

lemma escaped_quote:
  "escaped (replicate k BACKSLASH @ DQUOTE # It')
     = replicate (unat (of_nat k * 2 + 1 :: 32 word)) BACKSLASH @ DQUOTE # escaped It'"
proof -
  have "ArgvQuote_loop (replicate k BACKSLASH @ DQUOTE # It') []
      = Some ([] @ escaped (replicate k BACKSLASH @ DQUOTE # It'))"
    by (rule ArgvQuote_loop_escaped)
  moreover have "ArgvQuote_loop (replicate k BACKSLASH @ DQUOTE # It') []
      = Some (([] @ replicate (unat (of_nat k * 2 + 1 :: 32 word)) BACKSLASH @ [DQUOTE]) @ escaped It')"
    unfolding ArgvQuote_loop_quote by (rule ArgvQuote_loop_escaped)
  ultimately show ?thesis by simp
qed

lemma escaped_other:
  assumes "c \<noteq> BACKSLASH" "c \<noteq> DQUOTE"
  shows "escaped (replicate k BACKSLASH @ c # It')
     = replicate (unat (of_nat k :: 32 word)) BACKSLASH @ c # escaped It'"
proof -
  have "ArgvQuote_loop (replicate k BACKSLASH @ c # It') []
      = Some ([] @ escaped (replicate k BACKSLASH @ c # It'))"
    by (rule ArgvQuote_loop_escaped)
  moreover have "ArgvQuote_loop (replicate k BACKSLASH @ c # It') []
      = Some (([] @ replicate (unat (of_nat k :: 32 word)) BACKSLASH @ [c]) @ escaped It')"
    unfolding ArgvQuote_loop_other [OF assms] by (rule ArgvQuote_loop_escaped)
  ultimately show ?thesis by simp
qed

lemma escaped_Nil: "escaped [] = []"
  using escaped_end [of 0] by simp

lemma last_split:
  assumes "p = replicate k BACKSLASH @ c # p'" "p = [] \<or> last p \<noteq> BACKSLASH"
  shows "p' = [] \<or> last p' \<noteq> BACKSLASH"
  using assms by (cases "p' = []") auto

text \<open>Where the argument is cut after a character that is not a backslash, so is the output.\<close>

lemma escaped_append:
  "p = [] \<or> last p \<noteq> BACKSLASH \<Longrightarrow> escaped (p @ s) = escaped p @ escaped s"
proof (induction "length p" arbitrary: p rule: less_induct)
  case less
  from run_split [of p] obtain k where
    k: "p = replicate k BACKSLASH
     \<or> (\<exists>c p'. p = replicate k BACKSLASH @ c # p' \<and> c \<noteq> BACKSLASH)" by blast
  then show ?case
  proof
    assume p: "p = replicate k BACKSLASH"
    with less.prems have "p = []" by (cases "k = 0") (simp_all add: last_replicate)
    then show ?thesis by (simp add: escaped_Nil)
  next
    assume "\<exists>c p'. p = replicate k BACKSLASH @ c # p' \<and> c \<noteq> BACKSLASH"
    then obtain c p' where p: "p = replicate k BACKSLASH @ c # p'" and c: "c \<noteq> BACKSLASH"
      by blast
    have p': "p' = [] \<or> last p' \<noteq> BACKSLASH" using last_split [OF p less.prems] .
    have "length p' < length p" by (simp add: p)
    from less.hyps [OF this p'] have IH: "escaped (p' @ s) = escaped p' @ escaped s" .
    have ps: "p @ s = replicate k BACKSLASH @ c # (p' @ s)" by (simp add: p)
    show ?thesis
    proof (cases "c = DQUOTE")
      case True
      show ?thesis unfolding ps unfolding p True by (simp add: escaped_quote IH)
    next
      case False
      show ?thesis unfolding ps unfolding p by (simp add: escaped_other [OF c False] IH)
    qed
  qed
qed

lemma escaped_last:
  "p \<noteq> [] \<Longrightarrow> last p \<noteq> BACKSLASH \<Longrightarrow> escaped p \<noteq> [] \<and> last (escaped p) = last p"
proof (induction "length p" arbitrary: p rule: less_induct)
  case less
  from run_split [of p] obtain k where
    k: "p = replicate k BACKSLASH
     \<or> (\<exists>c p'. p = replicate k BACKSLASH @ c # p' \<and> c \<noteq> BACKSLASH)" by blast
  then show ?case
  proof
    assume p: "p = replicate k BACKSLASH"
    with less.prems have False by (cases "k = 0") (simp_all add: last_replicate)
    then show ?thesis ..
  next
    assume "\<exists>c p'. p = replicate k BACKSLASH @ c # p' \<and> c \<noteq> BACKSLASH"
    then obtain c p' where p: "p = replicate k BACKSLASH @ c # p'" and c: "c \<noteq> BACKSLASH"
      by blast
    have len: "length p' < length p" by (simp add: p)
    have e: "\<exists>X. escaped p = X @ c # escaped p'"
    proof (cases "c = DQUOTE")
      case True
      then show ?thesis unfolding p by (simp add: escaped_quote)
    next
      case False
      then show ?thesis unfolding p by (simp add: escaped_other [OF c False])
    qed
    then obtain X where X: "escaped p = X @ c # escaped p'" by blast
    show ?thesis
    proof (cases "p' = []")
      case True
      then show ?thesis using X by (simp add: p escaped_Nil)
    next
      case False
      then have "last p' \<noteq> BACKSLASH" using less.prems by (simp add: p)
      from less.hyps [OF len False this] show ?thesis using X False by (simp add: p)
    qed
  qed
qed

lemma takeWhile_run:
  "takeWhile (\<lambda>c. c = x) (replicate m x @ ys) = replicate m x @ takeWhile (\<lambda>c. c = x) ys"
  by (induction m) simp_all

lemma backslashes_before_closing_quote_escaped:
  assumes "p = [] \<or> last p \<noteq> BACKSLASH"
  shows "backslashes_before_closing_quote
           (cl @ DQUOTE # escaped p @ replicate m BACKSLASH @ [DQUOTE]) = m"
proof -
  have ne: "DQUOTE \<noteq> BACKSLASH" by (simp add: chars_defs)
  have "takeWhile (\<lambda>c. c = BACKSLASH) (rev (escaped p) @ DQUOTE # rev cl) = []"
  proof (cases "p = []")
    case True
    then show ?thesis using ne by (simp add: escaped_Nil)
  next
    case False
    with assms escaped_last [of p] have "escaped p \<noteq> []" "last (escaped p) \<noteq> BACKSLASH"
      by auto
    then have "hd (rev (escaped p)) \<noteq> BACKSLASH" "rev (escaped p) \<noteq> []"
      by (simp_all add: hd_rev)
    then show ?thesis by (cases "rev (escaped p)") auto
  qed
  then have "takeWhile (\<lambda>c. c = BACKSLASH)
      (replicate m BACKSLASH @ rev (escaped p) @ DQUOTE # rev cl) = replicate m BACKSLASH"
    by (simp only: takeWhile_run) simp
  then show ?thesis
    by (simp add: backslashes_before_closing_quote_def butlast_append)
qed

text \<open>ArgvQuote in closed form.\<close>

lemma ArgvQuote_eq:
  "ArgvQuote Argument CommandLine Force =
     Some (CommandLine @
       (if \<not> Force \<and> Argument \<noteq> []
           \<and> find_first_of Argument [SPACE, TAB, NEWLINE, VTAB, DQUOTE] = None
        then Argument else DQUOTE # escaped Argument @ [DQUOTE]))"
  by (simp add: ArgvQuote_def ArgvQuote_loop_escaped)

section \<open>Facts about the command line\<close>

lemma ArgvQuote_the:
  "ArgvQuote Argument CommandLine Force = Some (CommandLine @ the (ArgvQuote Argument [] Force))"
  by (simp add: ArgvQuote_eq)

lemma command_line_loop_eq:
  "argc = int (length argv) \<Longrightarrow> 0 \<le> argi \<Longrightarrow>
   command_line_loop argv argc argi command_line
     = Some (command_line
         @ concat (map (\<lambda>a. the (ArgvQuote a [] False) @ [SPACE]) (drop (nat argi) argv)))"
proof (induction argv argc argi command_line rule: command_line_loop.induct)
  case (1 argv argc argi command_line)
  show ?case
  proof (cases "argi < argc")
    case False
    with "1.prems" show ?thesis by (subst command_line_loop.simps) simp
  next
    case True
    let ?quoted = "command_line @ the (ArgvQuote (argv ! nat argi) [] False)"
    have q: "ArgvQuote (argv ! nat argi) command_line False = Some ?quoted"
      by (rule ArgvQuote_the)
    have IH: "command_line_loop argv argc (argi + 1)
          (command_line @ the (ArgvQuote (argv ! nat argi) [] False) @ [SPACE])
        = Some (command_line @ the (ArgvQuote (argv ! nat argi) [] False) @ SPACE
            # concat (map (\<lambda>a. the (ArgvQuote a [] False) @ [SPACE]) (drop (nat (argi + 1)) argv)))"
      using "1.IH" [OF True q] True "1.prems" by simp
    have lt: "nat argi < length argv" using True "1.prems" by simp
    have "nat (argi + 1) = Suc (nat argi)" using "1.prems" by simp
    then have d: "drop (nat argi) argv = argv ! nat argi # drop (nat (argi + 1)) argv"
      using Cons_nth_drop_Suc [OF lt] by simp
    show ?thesis
      by (subst command_line_loop.simps) (simp add: True q IH d)
  qed
qed

lemma build_command_line_eq:
  "build_command_line argv
     = Some (concat (map (\<lambda>a. the (ArgvQuote a [] False) @ [SPACE]) (drop 2 argv)))"
  by (simp add: build_command_line_def command_line_loop_eq)

section \<open>Facts about the tokenizer\<close>

lemma tokens_run:
  "tokens True q n arg (replicate k BACKSLASH @ s) = tokens True q (n + k) arg s"
  by (induction k arbitrary: n) (simp_all add: chars_defs)

lemma leading_backslashes_run:
  "leading_backslashes (replicate k BACKSLASH @ s) = k + leading_backslashes s"
  by (induction k) simp_all

lemma longest_backslash_run_ge:
  "k \<le> longest_backslash_run (replicate k BACKSLASH @ s)"
  "longest_backslash_run s \<le> longest_backslash_run (replicate k BACKSLASH @ s)"
  by (induction k) (simp_all add: leading_backslashes_run le_max_iff_disj)

lemma longest_backslash_run_tl:
  "longest_backslash_run s \<le> longest_backslash_run (c # s)"
  by simp

text \<open>
  Reading back what the loop wrote for \<open>It\<close>, inside the quotation marks: the tokenizer
  rebuilds \<open>It\<close>, as long as no run of backslashes made the counter wrap around.
\<close>

lemma tokens_escaped:
  "longest_backslash_run It < 2 ^ 31 \<Longrightarrow>
   tokens True True 0 arg (escaped It @ DQUOTE # SPACE # rest)
     = (arg @ It) # tokens False False 0 [] rest"
proof (induction "length It" arbitrary: It arg rule: less_induct)
  case less
  have dq: "DQUOTE \<noteq> BACKSLASH" "DQUOTE \<noteq> SPACE" "DQUOTE \<noteq> TAB" by (simp_all add: chars_defs)
  from run_split [of It] obtain k where
    k: "It = replicate k BACKSLASH
     \<or> (\<exists>c It'. It = replicate k BACKSLASH @ c # It' \<and> c \<noteq> BACKSLASH)" by blast
  then show ?case
  proof
    assume It: "It = replicate k BACKSLASH"
    have "k \<le> longest_backslash_run (replicate k BACKSLASH @ [])"
      by (rule longest_backslash_run_ge)
    then have "k < 2 ^ 31" using less.prems by (simp add: It)
    then have e: "escaped It = replicate (2 * k) BACKSLASH"
      by (simp add: It escaped_end unat_twice)
    show ?thesis
      unfolding e tokens_run using dq by (simp add: It)
  next
    assume "\<exists>c It'. It = replicate k BACKSLASH @ c # It' \<and> c \<noteq> BACKSLASH"
    then obtain c It' where It: "It = replicate k BACKSLASH @ c # It'" and c: "c \<noteq> BACKSLASH"
      by blast
    have "k \<le> longest_backslash_run It" unfolding It by (rule longest_backslash_run_ge)
    then have k: "k < 2 ^ 31" using less.prems by simp
    have len: "length It' < length It" by (simp add: It)
    have "longest_backslash_run It' \<le> longest_backslash_run (c # It')"
      by (rule longest_backslash_run_tl)
    also have "\<dots> \<le> longest_backslash_run It"
      unfolding It by (rule longest_backslash_run_ge)
    finally have "longest_backslash_run It' < 2 ^ 31" using less.prems by simp
    note IH = less.hyps [OF len this]
    show ?thesis
    proof (cases "c = DQUOTE")
      case True
      have e: "escaped It @ DQUOTE # SPACE # rest = replicate (2 * k + 1) BACKSLASH
                 @ DQUOTE # (escaped It' @ DQUOTE # SPACE # rest)"
        using k by (simp add: It True escaped_quote unat_twice_plus_one)
      show ?thesis
        unfolding e tokens_run using dq by (simp add: IH It True)
    next
      case False
      have e: "escaped It @ DQUOTE # SPACE # rest = replicate k BACKSLASH
                 @ c # (escaped It' @ DQUOTE # SPACE # rest)"
        using k by (simp add: It escaped_other [OF c False] unat_count)
      show ?thesis
        unfolding e tokens_run using c False by (simp add: IH It)
    qed
  qed
qed

text \<open>Reading back an argument that was appended as it is.\<close>

lemma tokens_plain:
  "set xs \<inter> {SPACE, TAB, DQUOTE} = {} \<Longrightarrow>
   tokens True False n arg (xs @ SPACE # rest)
     = (arg @ replicate n BACKSLASH @ xs) # tokens False False 0 [] rest"
proof (induction xs arbitrary: n arg)
  case Nil
  show ?case by simp
next
  case (Cons c xs)
  then have c: "c \<noteq> SPACE" "c \<noteq> TAB" "c \<noteq> DQUOTE" and xs: "set xs \<inter> {SPACE, TAB, DQUOTE} = {}"
    by auto
  show ?case
  proof (cases "c = BACKSLASH")
    case True
    show ?thesis using c by (simp add: True Cons.IH [OF xs] replicate_append_same)
  next
    case False
    show ?thesis using c False by (simp add: Cons.IH [OF xs])
  qed
qed

lemma tokens_quoted:
  assumes "longest_backslash_run a < 2 ^ 31"
  shows "tokens False False 0 [] (the (ArgvQuote a [] False) @ SPACE # rest)
     = a # tokens False False 0 [] rest"
proof (cases "a \<noteq> [] \<and> find_first_of a [SPACE, TAB, NEWLINE, VTAB, DQUOTE] = None")
  case True
  then obtain c xs where a: "a = c # xs" by (cases a) auto
  from True have "set a \<inter> {SPACE, TAB, DQUOTE} = {}"
    unfolding find_first_of_None by auto
  then have c: "c \<noteq> SPACE" "c \<noteq> TAB" "c \<noteq> DQUOTE" and xs: "set xs \<inter> {SPACE, TAB, DQUOTE} = {}"
    by (auto simp add: a)
  have "the (ArgvQuote a [] False) = a" using True by (simp add: ArgvQuote_eq)
  then show ?thesis using c by (simp add: a tokens_plain [OF xs])
next
  case False
  then have "the (ArgvQuote a [] False) = DQUOTE # escaped a @ [DQUOTE]"
    by (auto simp add: ArgvQuote_eq)
  moreover have "DQUOTE \<noteq> BACKSLASH" "DQUOTE \<noteq> SPACE" "DQUOTE \<noteq> TAB" by (simp_all add: chars_defs)
  ultimately show ?thesis by (simp add: tokens_escaped [OF assms])
qed

lemma tokens_round_trip:
  "\<forall>a \<in> set args. longest_backslash_run a < 2 ^ 31 \<Longrightarrow>
   tokens False False 0 [] (concat (map (\<lambda>a. the (ArgvQuote a [] False) @ [SPACE]) args)) = args"
  by (induction args) (simp_all add: tokens_quoted)

text \<open>
  The program name. An argument without a quotation mark and without a backslash at its
  end is written between the quotation marks as it is, and read back by the rule for
  the program name; so is an argument that needs no quotation marks.
\<close>

lemma escaped_plain:
  "DQUOTE \<notin> set p \<Longrightarrow> p = [] \<or> last p \<noteq> BACKSLASH \<Longrightarrow> longest_backslash_run p < 2 ^ 31
   \<Longrightarrow> escaped p = p"
proof (induction "length p" arbitrary: p rule: less_induct)
  case less
  from run_split [of p] obtain k where
    k: "p = replicate k BACKSLASH
     \<or> (\<exists>c p'. p = replicate k BACKSLASH @ c # p' \<and> c \<noteq> BACKSLASH)" by blast
  then show ?case
  proof
    assume p: "p = replicate k BACKSLASH"
    with less.prems(2) have "p = []" by (cases "k = 0") (simp_all add: last_replicate)
    then show ?thesis by (simp add: escaped_Nil)
  next
    assume "\<exists>c p'. p = replicate k BACKSLASH @ c # p' \<and> c \<noteq> BACKSLASH"
    then obtain c p' where p: "p = replicate k BACKSLASH @ c # p'" and c: "c \<noteq> BACKSLASH"
      by blast
    have dq: "c \<noteq> DQUOTE" "DQUOTE \<notin> set p'" using less.prems(1) by (auto simp add: p)
    have p': "p' = [] \<or> last p' \<noteq> BACKSLASH" using last_split [OF p less.prems(2)] .
    have "k \<le> longest_backslash_run p" unfolding p by (rule longest_backslash_run_ge)
    then have k: "k < 2 ^ 32" using less.prems(3) by simp
    have "longest_backslash_run p' \<le> longest_backslash_run (c # p')"
      by (rule longest_backslash_run_tl)
    also have "\<dots> \<le> longest_backslash_run p"
      unfolding p by (rule longest_backslash_run_ge)
    finally have run: "longest_backslash_run p' < 2 ^ 31" using less.prems(3) by simp
    have "length p' < length p" by (simp add: p)
    from less.hyps [OF this dq(2) p' run] have "escaped p' = p'" .
    then show ?thesis
      unfolding p using k by (simp add: escaped_other [OF c dq(1)] unat_count)
  qed
qed

lemma program_name_plain:
  assumes "p \<noteq> []" and "set p \<inter> {SPACE, TAB, DQUOTE} = {}"
  shows "program_name (p @ SPACE # rest) = (p, SPACE # rest)"
proof -
  from assms obtain c xs where p: "p = c # xs" by (cases p) auto
  have c: "c \<noteq> DQUOTE" using assms(2) by (auto simp add: p)
  have all: "\<forall>x \<in> set p. x \<noteq> SPACE \<and> x \<noteq> TAB" using assms(2) by auto
  then have "takeWhile (\<lambda>x. x \<noteq> SPACE \<and> x \<noteq> TAB) (p @ SPACE # rest) = p"
    and "dropWhile (\<lambda>x. x \<noteq> SPACE \<and> x \<noteq> TAB) (p @ SPACE # rest) = SPACE # rest"
    by (simp_all add: takeWhile_append2 dropWhile_append2)
  then show ?thesis using c by (simp add: p)
qed

lemma program_name_quoted:
  assumes "DQUOTE \<notin> set p"
  shows "program_name (DQUOTE # p @ DQUOTE # rest) = (p, rest)"
proof -
  from assms have all: "\<forall>x \<in> set p. x \<noteq> DQUOTE" by auto
  then have "takeWhile (\<lambda>x. x \<noteq> DQUOTE) (p @ DQUOTE # rest) = p"
    and "dropWhile (\<lambda>x. x \<noteq> DQUOTE) (p @ DQUOTE # rest) = DQUOTE # rest"
    by (simp_all add: takeWhile_append2 dropWhile_append2)
  then show ?thesis by simp
qed

text \<open>
  What does hold of quoting, joining and splitting: the arguments come back, one for
  one, when the program name (the third entry of \<open>argv\<close>) holds no quotation mark and
  either needs no quotation marks or does not end in a backslash, and no argument holds
  a run of \<open>2 ^ 31\<close> or more backslashes.
\<close>

lemma split_build_round_trip:
  assumes len: "3 \<le> length argv"
    and dq: "DQUOTE \<notin> set (argv ! 2)"
    and tail: "argv ! 2 = [] \<or> last (argv ! 2) \<noteq> BACKSLASH
       \<or> set (argv ! 2) \<inter> {SPACE, TAB, NEWLINE, VTAB} = {}"
    and runs: "\<forall>a \<in> set (drop 2 argv). longest_backslash_run a < 2 ^ 31"
  shows "map_option split_command_line (build_command_line argv) = Some (drop 2 argv)"
proof -
  define p where "p = argv ! 2"
  define args where "args = drop 3 argv"
  define rest where "rest = concat (map (\<lambda>a. the (ArgvQuote a [] False) @ [SPACE]) args)"
  have d: "drop 2 argv = p # args"
    using len Cons_nth_drop_Suc [of 2 argv] by (simp add: p_def args_def numeral_3_eq_3)
  have runs': "longest_backslash_run p < 2 ^ 31" "\<forall>a \<in> set args. longest_backslash_run a < 2 ^ 31"
    using runs by (simp_all add: d)
  have dq': "DQUOTE \<notin> set p" using dq by (simp add: p_def)
  have tail': "p = [] \<or> last p \<noteq> BACKSLASH \<or> set p \<inter> {SPACE, TAB, NEWLINE, VTAB} = {}"
    using tail by (simp add: p_def)
  have build: "build_command_line argv = Some (the (ArgvQuote p [] False) @ SPACE # rest)"
    by (simp add: build_command_line_eq d rest_def)
  have args: "tokens False False 0 [] rest = args"
    using tokens_round_trip [OF runs'(2)] by (simp add: rest_def)
  have "program_name (the (ArgvQuote p [] False) @ SPACE # rest) = (p, SPACE # rest)"
  proof (cases "p \<noteq> [] \<and> find_first_of p [SPACE, TAB, NEWLINE, VTAB, DQUOTE] = None")
    case True
    then have "set p \<inter> {SPACE, TAB, DQUOTE} = {}" unfolding find_first_of_None by auto
    moreover have "the (ArgvQuote p [] False) = p" using True by (simp add: ArgvQuote_eq)
    ultimately show ?thesis using True by (simp del: program_name.simps add: program_name_plain)
  next
    case False
    then have q: "the (ArgvQuote p [] False) = DQUOTE # escaped p @ [DQUOTE]"
      by (auto simp add: ArgvQuote_eq)
    have "p = [] \<or> last p \<noteq> BACKSLASH"
    proof (rule ccontr)
      assume n: "\<not> (p = [] \<or> last p \<noteq> BACKSLASH)"
      with tail' have "set p \<inter> {SPACE, TAB, NEWLINE, VTAB} = {}" by simp
      with dq' have "find_first_of p [SPACE, TAB, NEWLINE, VTAB, DQUOTE] = None"
        unfolding find_first_of_None by auto
      with False n show False by simp
    qed
    with dq' runs'(1) have e: "escaped p = p" by (simp add: escaped_plain)
    have "program_name (DQUOTE # p @ DQUOTE # SPACE # rest) = (p, SPACE # rest)"
      by (rule program_name_quoted [OF dq'])
    then show ?thesis by (simp del: program_name.simps add: q e)
  qed
  then show ?thesis by (simp add: build split_command_line_def args d)
qed

text \<open>
  What does not: a program name that is written between quotation marks and ends in a
  backslash. \<open>ArgvQuote\<close> doubles the backslash, and the rule for the program name
  reads both.
\<close>

lemma program_name_not_round_tripped:
  "map_option split_command_line
     (build_command_line [L ''timeout'', L ''10'', L ''a b'' @ [BACKSLASH]])
     = Some [L ''a b'' @ [BACKSLASH, BACKSLASH]]"
  by (simp add: build_command_line_def command_line_loop.simps ArgvQuote_def
      ArgvQuote_loop.simps split_command_line_def L_def chars_defs replicate_numeral)

section \<open>Facts about wmain\<close>

lemmas exit_defs = EXIT_TIMEDOUT_def EXIT_CANCELED_def EXIT_CANNOT_INVOKE_def EXIT_ENOENT_def
lemmas win_defs = WAIT_OBJECT_0_def WAIT_TIMEOUT_def WAIT_FAILED_def ERROR_FILE_NOT_FOUND_def

lemma build_command_line_total: "\<exists>command_line. build_command_line argv = Some command_line"
  by (simp add: build_command_line_eq)

lemma wmain_usage:
  "length argv < 3 \<Longrightarrow> wmain sys argv = Some (fail UsageError EXIT_CANCELED)"
  by (simp add: wmain_def)

lemma wmain_invalid_timeout:
  assumes "3 \<le> length argv"
    and "stoul sys (argv ! 1) = invalid_argument \<or> stoul sys (argv ! 1) = out_of_range"
  shows "wmain sys argv = Some (fail InvalidTimeout EXIT_CANCELED)"
  using assms by (auto simp add: wmain_def)

lemma wmain_not_created:
  assumes "3 \<le> length argv" and "stoul sys (argv ! 1) = Converted time_out"
    and "build_command_line argv = Some command_line"
    and "CreateProcessW sys command_line = Inl last_error"
  shows "wmain sys argv =
     Some (if last_error = ERROR_FILE_NOT_FOUND then fail CommandNotFound EXIT_ENOENT
           else fail CannotInvoke EXIT_CANNOT_INVOKE)"
  using assms by (simp add: wmain_def build_command_line_def)

lemma wmain_created:
  assumes "3 \<le> length argv" and "stoul sys (argv ! 1) = Converted time_out"
    and "build_command_line argv = Some command_line"
    and "CreateProcessW sys command_line = Inr pi"
  shows "wmain sys argv =
     Some (HandleGuard (hProcess pi) (HandleGuard (hThread pi) (wait_switch sys pi time_out)))"
  using assms by (simp add: wmain_def build_command_line_def)

lemma closed_wait_switch: "closed (wait_switch sys pi time_out) = []"
  by (simp add: wait_switch_def Let_def fail_def split: option.split)

lemma HandleGuard_simps:
  "exit_code (HandleGuard h r) = exit_code r"
  "wcerr (HandleGuard h r) = wcerr r"
  "closed (HandleGuard h r) = closed r @ [h]"
  by (simp_all add: HandleGuard_def)

text \<open>
  The exit code by the condition that fails. A run that cannot start the child ends at
  line 128, 137, 140, 172 or 177; \<open>wmain_usage\<close>, \<open>wmain_invalid_timeout\<close> and
  \<open>wmain_not_created\<close> give its result. For a run that has started the child: when the
  wait fails, or times out and the termination request fails, or reports the end of the
  child and the exit code cannot be read, or answers none of the three values, a
  diagnostic is written and 125 is returned.
\<close>

lemma failure_conditions_exit_codes:
  assumes "3 \<le> length argv" and "stoul sys (argv ! 1) = Converted time_out"
    and "build_command_line argv = Some command_line"
    and "CreateProcessW sys command_line = Inr pi"
  shows "WaitForSingleObject sys (hProcess pi) time_out = WAIT_FAILED \<Longrightarrow>
           wmain sys argv = Some \<lparr>exit_code = 125, wcerr = Some WaitFailed,
                                   closed = [hThread pi, hProcess pi]\<rparr>"
    and "WaitForSingleObject sys (hProcess pi) time_out = WAIT_TIMEOUT \<Longrightarrow>
         \<not> TerminateProcess sys (hProcess pi) 0 \<Longrightarrow>
           wmain sys argv = Some \<lparr>exit_code = 125, wcerr = Some TerminateFailed,
                                   closed = [hThread pi, hProcess pi]\<rparr>"
    and "WaitForSingleObject sys (hProcess pi) time_out = WAIT_OBJECT_0 \<Longrightarrow>
         GetExitCodeProcess sys (hProcess pi) = None \<Longrightarrow>
           wmain sys argv = Some \<lparr>exit_code = 125, wcerr = Some ExitCodeUnavailable,
                                   closed = [hThread pi, hProcess pi]\<rparr>"
    and "WaitForSingleObject sys (hProcess pi) time_out \<noteq> WAIT_FAILED \<Longrightarrow>
         WaitForSingleObject sys (hProcess pi) time_out \<noteq> WAIT_TIMEOUT \<Longrightarrow>
         WaitForSingleObject sys (hProcess pi) time_out \<noteq> WAIT_OBJECT_0 \<Longrightarrow>
           wmain sys argv = Some \<lparr>exit_code = 125, wcerr = Some UnexpectedWaitResult,
                                   closed = [hThread pi, hProcess pi]\<rparr>"
  using wmain_created [OF assms]
  by (simp_all add: wait_switch_def HandleGuard_def fail_def exit_defs win_defs)

text \<open>The two readings of a 32-bit value: \<open>uint\<close> as a \<^verbatim>\<open>DWORD\<close>, \<open>sint\<close> as an \<^verbatim>\<open>int\<close>.\<close>

lemma sint_high:
  fixes w :: "32 word"
  assumes "2 ^ 31 \<le> uint w"
  shows "sint w = uint w - 2 ^ 32"
proof -
  have b: "uint w < 2 ^ 32" using uint_bounded [of w] by simp
  have "sint w = take_bit 32 (uint w + 2 ^ 31) - 2 ^ 31"
    by (simp add: sint_uint signed_take_bit_eq_take_bit_shift)
  also have "take_bit 32 (uint w + 2 ^ 31) = (uint w + 2 ^ 31) mod 2 ^ 32"
    by (simp add: take_bit_eq_mod)
  also have "(uint w + 2 ^ 31) mod 2 ^ 32 = ((uint w - 2 ^ 31) + 2 ^ 32) mod 2 ^ 32"
    by (rule arg_cong [where f = "\<lambda>x. x mod 2 ^ 32"]) simp
  also have "\<dots> = (uint w - 2 ^ 31) mod 2 ^ 32"
    by (rule mod_add_self2)
  also have "\<dots> = uint w - 2 ^ 31"
    using assms b by (intro mod_pos_pos_trivial) simp_all
  finally show ?thesis by simp
qed

lemma sint_low:
  fixes w :: "32 word"
  assumes "uint w < 2 ^ 31"
  shows "sint w = uint w"
proof -
  have b: "0 \<le> uint w" by simp
  have "sint w = take_bit 32 (uint w + 2 ^ 31) - 2 ^ 31"
    by (simp add: sint_uint signed_take_bit_eq_take_bit_shift)
  also have "take_bit 32 (uint w + 2 ^ 31) = (uint w + 2 ^ 31) mod 2 ^ 32"
    by (simp add: take_bit_eq_mod)
  also have "(uint w + 2 ^ 31) mod 2 ^ 32 = uint w + 2 ^ 31"
    using assms b by (intro mod_pos_pos_trivial) simp_all
  finally show ?thesis by simp
qed


section \<open>The claims\<close>

subsection \<open>C1: a timed-out child and the probe of line 199\<close>

text \<open>
  Claim C1 says: when the process is created, the bounded wait times out, the termination
  request succeeds and the zero-duration probe on the thread handle does not report an
  error, the run returns 124. The code does not do this. Line 199 reads
  \<^verbatim>\<open>if (!WaitForSingleObject(pi.hThread, 0))\<close>: the branch that writes
  "WaitForSingleObject failed" and returns 125 is taken when the probe returns 0, which is
  \<^verbatim>\<open>WAIT_OBJECT_0\<close> (the thread has ended), not when it returns \<^verbatim>\<open>WAIT_FAILED\<close>,
  the value the wait of line 186 is compared with at line 188. The first run below has a
  probe that answers \<^verbatim>\<open>WAIT_OBJECT_0\<close> and ends with 125; the second has a probe that
  answers \<^verbatim>\<open>WAIT_FAILED\<close> and ends with 124.
\<close>

theorem timeout_probe_test_inverted:
  "wmain (scripted_os (Converted 100) (Inr \<lparr>hProcess = 4, hThread = 8\<rparr>)
            WAIT_TIMEOUT True WAIT_OBJECT_0 None)
         [L ''timeout'', L ''100'', L ''sleep'', L ''5'']
     = Some \<lparr>exit_code = 125, wcerr = Some PostTerminateCheckFailed, closed = [8, 4]\<rparr>
   \<and> wmain (scripted_os (Converted 100) (Inr \<lparr>hProcess = 4, hThread = 8\<rparr>)
              WAIT_TIMEOUT True WAIT_FAILED None)
         [L ''timeout'', L ''100'', L ''sleep'', L ''5'']
     = Some \<lparr>exit_code = 124, wcerr = None, closed = [8, 4]\<rparr>
   \<and> WAIT_OBJECT_0 \<noteq> WAIT_FAILED"
  by (simp add: wmain_def scripted_os_def wait_switch_def fail_def HandleGuard_def
      command_line_loop.simps ArgvQuote_def L_def chars_defs exit_defs win_defs)

subsection \<open>C2: quoting, joining and splitting again\<close>

text \<open>
  Claim C2 says: for every sequence of arguments, quoting each with \<open>ArgvQuote\<close>,
  joining them into one command line and splitting it with the Windows argv tokenizer
  gives back the arguments, one for one; the comment of lines 36 and 37 promises the
  same of \<open>ArgvQuote\<close>. The code does not keep the promise, for two reasons, and the
  theorem evaluates the loop of lines 143 to 149 at an input for each.
  \<^item> \<^verbatim>\<open>wmain\<close> quotes the program name like any other argument. For the program name
    \<^verbatim>\<open>a b\\<close> the command line is \<^verbatim>\<open>"a b\\" \<close>, with the backslash doubled; the
    tokenizer reads the first token up to the next quotation mark with backslashes
    standing for themselves, so it reads \<^verbatim>\<open>a b\\\<close>
    (\<open>program_name_not_round_tripped\<close> above computes it in the model of the tokenizer).
  \<^item> The counter \<open>NumberBackslashes\<close> is an \<^verbatim>\<open>unsigned\<close>, and twice its value is
    computed modulo \<open>2 ^ 32\<close>. For an argument made of a space and \<open>2 ^ 31\<close>
    backslashes no backslash is written: the command line is \<^verbatim>\<open>" " \<close>, the one built
    for the argument that is a single space. No way of splitting it gives back both.
    This is the defect of C7.
\<close>

lemma ArgvQuote_wrapped_run:
  "ArgvQuote (SPACE # replicate (2 ^ 31) BACKSLASH) [] False = Some [DQUOTE, SPACE, DQUOTE]"
proof -
  have s: "SPACE \<noteq> BACKSLASH" "SPACE \<noteq> DQUOTE" by (simp_all add: chars_defs)
  have "escaped (replicate 0 BACKSLASH @ SPACE # replicate (2 ^ 31) BACKSLASH)
      = replicate (unat (of_nat 0 :: 32 word)) BACKSLASH
          @ SPACE # escaped (replicate (2 ^ 31) BACKSLASH)"
    by (rule escaped_other [OF s])
  moreover have "escaped (replicate (2 ^ 31) BACKSLASH) = []"
    by (simp only: escaped_end) simp
  ultimately have "escaped (SPACE # replicate (2 ^ 31) BACKSLASH) = [SPACE]"
    by simp
  then show ?thesis by (simp add: ArgvQuote_eq)
qed

text \<open>
  Claim C2, at the two inputs: the command line built for the program name \<^verbatim>\<open>a b\\<close>,
  and the two different arguments that are given the same command line.
\<close>

theorem command_line_not_invertible:
  "build_command_line [L ''timeout'', L ''10'', L ''a b'' @ [BACKSLASH]]
     = Some (DQUOTE # L ''a b'' @ [BACKSLASH, BACKSLASH, DQUOTE, SPACE])
   \<and> build_command_line [L ''timeout'', L ''10'', SPACE # replicate (2 ^ 31) BACKSLASH]
     = build_command_line [L ''timeout'', L ''10'', [SPACE]]
   \<and> SPACE # replicate (2 ^ 31) BACKSLASH \<noteq> [SPACE]"
proof -
  have name: "build_command_line [L ''timeout'', L ''10'', L ''a b'' @ [BACKSLASH]]
      = Some (DQUOTE # L ''a b'' @ [BACKSLASH, BACKSLASH, DQUOTE, SPACE])"
    by (simp add: build_command_line_def command_line_loop.simps ArgvQuote_def
        ArgvQuote_loop.simps L_def chars_defs replicate_numeral)
  have three: "build_command_line [p, t, a] = Some (the (ArgvQuote a [] False) @ [SPACE])"
    for p t a
    by (simp add: build_command_line_eq)
  have long: "build_command_line [L ''timeout'', L ''10'', SPACE # replicate (2 ^ 31) BACKSLASH]
      = Some [DQUOTE, SPACE, DQUOTE, SPACE]"
    by (simp only: three ArgvQuote_wrapped_run option.sel append.simps)
  have "ArgvQuote [SPACE] [] False = Some [DQUOTE, SPACE, DQUOTE]"
    by (simp add: ArgvQuote_def ArgvQuote_loop.simps chars_defs)
  then have short: "build_command_line [L ''timeout'', L ''10'', [SPACE]]
      = Some [DQUOTE, SPACE, DQUOTE, SPACE]"
    by (simp only: three option.sel append.simps)
  have "replicate (2 ^ 31) BACKSLASH \<noteq> []"
    by (simp only: replicate_empty) simp
  then have differ: "SPACE # replicate (2 ^ 31) BACKSLASH \<noteq> [SPACE]"
    by simp
  from name long short differ show ?thesis by (simp only: simp_thms)
qed

subsection \<open>C3: the separator after the last argument\<close>

text \<open>
  Claim C3 says: the command line is the quoted arguments in input order, separated by
  single spaces, with no separator after the last one. The code appends a space after
  every argument, the last one too: the test \<^verbatim>\<open>if (argi < argc)\<close> of line 146 stands
  inside a loop that runs only while \<^verbatim>\<open>argi < argc\<close>, so it never fails
  (\<open>build_command_line_eq\<close> above is the general form). For the arguments \<^verbatim>\<open>a\<close> and
  \<^verbatim>\<open>b\<close> the command line is \<^verbatim>\<open>a b \<close>, four characters, not \<^verbatim>\<open>a b\<close>.
\<close>

theorem command_line_trailing_separator:
  "build_command_line [L ''timeout'', L ''10'', L ''a'', L ''b''] = Some (L ''a b '')"
  by (simp add: build_command_line_def command_line_loop.simps ArgvQuote_def L_def chars_defs)

subsection \<open>C4: every handle is released once\<close>

text \<open>
  Claim C4: once the argument count and the timeout have been accepted and the command
  line built, if \<^verbatim>\<open>CreateProcessW\<close> succeeds with the handles \<open>pi\<close>, the run makes
  exactly two calls of \<^verbatim>\<open>CloseHandle\<close>, one on the thread handle and one on the process
  handle, whatever the waits, the termination request and the exit-code query answer
  (the environment \<open>sys\<close> is arbitrary, so every path through lines 186 to 220 is
  covered); and if \<^verbatim>\<open>CreateProcessW\<close> fails, the run calls \<^verbatim>\<open>CloseHandle\<close> not at all.
\<close>

theorem handles_released_once:
  assumes "3 \<le> length argv" and "stoul sys (argv ! 1) = Converted time_out"
    and "build_command_line argv = Some command_line"
  shows "(\<forall>pi. CreateProcessW sys command_line = Inr pi \<longrightarrow>
            (\<exists>r. wmain sys argv = Some r \<and> closed r = [hThread pi, hProcess pi]))
       \<and> (\<forall>last_error. CreateProcessW sys command_line = Inl last_error \<longrightarrow>
            (\<exists>r. wmain sys argv = Some r \<and> closed r = []))"
proof (intro conjI allI impI)
  fix pi
  assume "CreateProcessW sys command_line = Inr pi"
  from wmain_created [OF assms this]
  show "\<exists>r. wmain sys argv = Some r \<and> closed r = [hThread pi, hProcess pi]"
    by (simp add: HandleGuard_simps closed_wait_switch)
next
  fix last_error
  assume "CreateProcessW sys command_line = Inl last_error"
  from wmain_not_created [OF assms this]
  show "\<exists>r. wmain sys argv = Some r \<and> closed r = []"
    by (simp add: fail_def)
qed

text \<open>
  The theorem at a run that times out (handles 4 and 8) and at a run whose process
  creation fails with error 5.
\<close>

theorem handles_released_once_witness:
  "(\<exists>r. wmain (scripted_os (Converted 100) (Inr \<lparr>hProcess = 4, hThread = 8\<rparr>)
                  WAIT_TIMEOUT True WAIT_TIMEOUT None)
               [L ''timeout'', L ''100'', L ''sleep''] = Some r
        \<and> closed r = [8, 4])
   \<and> (\<exists>r. wmain (scripted_os (Converted 100) (Inl 5) WAIT_TIMEOUT True WAIT_TIMEOUT None)
               [L ''timeout'', L ''100'', L ''sleep''] = Some r
        \<and> closed r = [])"
proof -
  let ?argv = "[L ''timeout'', L ''100'', L ''sleep'']"
  let ?pi = "\<lparr>hProcess = 4, hThread = 8\<rparr>"
  let ?sys = "scripted_os (Converted 100) (Inr ?pi) WAIT_TIMEOUT True WAIT_TIMEOUT None"
  let ?sys' = "scripted_os (Converted 100) (Inl 5) WAIT_TIMEOUT True WAIT_TIMEOUT None"
  have len: "3 \<le> length ?argv" by simp
  have cl: "build_command_line ?argv = Some (L ''sleep '')"
    by (simp add: build_command_line_def command_line_loop.simps ArgvQuote_def L_def chars_defs)
  have t: "stoul ?sys (?argv ! 1) = Converted 100" "stoul ?sys' (?argv ! 1) = Converted 100"
    by (simp_all add: scripted_os_def)
  have c: "CreateProcessW ?sys (L ''sleep '') = Inr ?pi"
    "CreateProcessW ?sys' (L ''sleep '') = Inl 5"
    by (simp_all add: scripted_os_def)
  from handles_released_once [OF len t(1) cl] c(1)
  have "\<exists>r. wmain ?sys ?argv = Some r \<and> closed r = [hThread ?pi, hProcess ?pi]" by blast
  moreover from handles_released_once [OF len t(2) cl] c(2)
  have "\<exists>r. wmain ?sys' ?argv = Some r \<and> closed r = []" by blast
  ultimately show ?thesis by simp
qed

subsection \<open>C5: the exit code of every failure\<close>

text \<open>
  Claim C5 says: a command that is not found gives 127, one that cannot be invoked 126,
  and every other failure 125, the failure of the post-terminate check among them. The
  code does this for eight of the nine kinds (\<open>failure_conditions_exit_codes\<close> above,
  each kind by the condition that the environment meets), but not for the post-terminate
  check: when the probe of line 199 fails, that is, answers \<^verbatim>\<open>WAIT_FAILED\<close>, the test
  \<^verbatim>\<open>!WaitForSingleObject(pi.hThread, 0)\<close> is false, no diagnostic is written and the run
  returns 124 as if the child had timed out cleanly. This is the inverted test of C1.
\<close>

theorem failed_probe_returns_timed_out:
  "wmain (scripted_os (Converted 50) (Inr \<lparr>hProcess = 12, hThread = 16\<rparr>)
            WAIT_TIMEOUT True WAIT_FAILED None)
         [L ''timeout'', L ''50'', L ''child'']
     = Some \<lparr>exit_code = 124, wcerr = None, closed = [16, 12]\<rparr>"
  by (simp add: wmain_def scripted_os_def wait_switch_def fail_def HandleGuard_def
      command_line_loop.simps ArgvQuote_def L_def chars_defs exit_defs win_defs)

subsection \<open>C6: the child's exit code is passed through\<close>

text \<open>
  Claim C6: when the process is created, the wait of line 186 reports that the child has
  ended within the budget (\<^verbatim>\<open>WAIT_OBJECT_0\<close>) and \<^verbatim>\<open>GetExitCodeProcess\<close> succeeds
  with \<open>error_code\<close>, the run writes no diagnostic and the value it returns is
  \<open>error_code\<close> itself: the same 32 bits, which are the exit status of the launcher's
  process.
\<close>

theorem child_exit_code_passed_through:
  assumes "3 \<le> length argv" and "stoul sys (argv ! 1) = Converted time_out"
    and "build_command_line argv = Some command_line"
    and "CreateProcessW sys command_line = Inr pi"
    and "WaitForSingleObject sys (hProcess pi) time_out = WAIT_OBJECT_0"
    and "GetExitCodeProcess sys (hProcess pi) = Some error_code"
  shows "\<exists>r. wmain sys argv = Some r \<and> exit_code r = error_code \<and> wcerr r = None"
  using wmain_created [OF assms(1-4)] assms(5,6)
  by (simp add: HandleGuard_simps wait_switch_def win_defs)

text \<open>The theorem at a child that ends with exit code 42.\<close>

theorem child_exit_code_passed_through_witness:
  "\<exists>r. wmain (scripted_os (Converted 100) (Inr \<lparr>hProcess = 4, hThread = 8\<rparr>)
                 WAIT_OBJECT_0 True 0 (Some 42))
              [L ''timeout'', L ''100'', L ''child''] = Some r
       \<and> exit_code r = 42 \<and> wcerr r = None"
proof -
  let ?argv = "[L ''timeout'', L ''100'', L ''child'']"
  let ?pi = "\<lparr>hProcess = 4, hThread = 8\<rparr>"
  let ?sys = "scripted_os (Converted 100) (Inr ?pi) WAIT_OBJECT_0 True 0 (Some 42)"
  have len: "3 \<le> length ?argv" by simp
  have cl: "build_command_line ?argv = Some (L ''child '')"
    by (simp add: build_command_line_def command_line_loop.simps ArgvQuote_def L_def chars_defs)
  have t: "stoul ?sys (?argv ! 1) = Converted 100" by (simp add: scripted_os_def)
  have c: "CreateProcessW ?sys (L ''child '') = Inr ?pi" by (simp add: scripted_os_def)
  have w: "WaitForSingleObject ?sys (hProcess ?pi) 100 = WAIT_OBJECT_0"
    by (simp add: scripted_os_def)
  have g: "GetExitCodeProcess ?sys (hProcess ?pi) = Some 42" by (simp add: scripted_os_def)
  from child_exit_code_passed_through [OF len t cl c w g] show ?thesis .
qed

subsection \<open>C7: the escaping law\<close>


text \<open>
  Below the overflow the code keeps the law. Let the argument end in exactly \<open>n\<close>
  backslashes, \<open>n < 2 ^ 31\<close> (it is \<open>p\<close> followed by \<open>n\<close> backslashes, and \<open>p\<close> does
  not end in a backslash). If \<open>ArgvQuote\<close> quotes it (\<open>Force\<close> is set, or the argument
  is empty, or it holds a space, tab, newline, vertical tab or quotation mark), the
  output ends with a quotation mark that exactly \<open>2 * n\<close> backslashes stand before. And
  if the argument holds a quotation mark that exactly \<open>n\<close> backslashes stand before (it
  is \<open>p\<close>, \<open>n\<close> backslashes, the quotation mark and a rest \<open>s\<close>), the output is the
  opening quotation mark, what is written for \<open>p\<close>, then \<open>2 * n + 1\<close> backslashes and
  that quotation mark, then what is written for \<open>s\<close>, and the closing quotation mark;
  what is written for \<open>p\<close> does not end in a backslash either.
\<close>

lemma ArgvQuote_escaping_law_below_overflow:
  assumes "p = [] \<or> last p \<noteq> BACKSLASH" and "n < 2 ^ 31"
  shows "(Force \<or> p @ replicate n BACKSLASH = []
            \<or> find_first_of (p @ replicate n BACKSLASH) [SPACE, TAB, NEWLINE, VTAB, DQUOTE] \<noteq> None
          \<longrightarrow> (\<exists>out. ArgvQuote (p @ replicate n BACKSLASH) CommandLine Force = Some out
                \<and> last out = DQUOTE
                \<and> backslashes_before_closing_quote out = 2 * n))
       \<and> (\<exists>u v. ArgvQuote (p @ replicate n BACKSLASH @ DQUOTE # s) CommandLine Force
                   = Some (CommandLine @ DQUOTE # u @ replicate (2 * n + 1) BACKSLASH
                             @ DQUOTE # v @ [DQUOTE])
                \<and> (u = [] \<or> last u \<noteq> BACKSLASH)
                \<and> ArgvQuote p [] True = Some (DQUOTE # u @ [DQUOTE])
                \<and> ArgvQuote s [] True = Some (DQUOTE # v @ [DQUOTE]))"
proof (intro conjI impI)
  assume quoted: "Force \<or> p @ replicate n BACKSLASH = []
     \<or> find_first_of (p @ replicate n BACKSLASH) [SPACE, TAB, NEWLINE, VTAB, DQUOTE] \<noteq> None"
  have "escaped (p @ replicate n BACKSLASH) = escaped p @ replicate (2 * n) BACKSLASH"
    using assms by (simp add: escaped_append escaped_end unat_twice)
  then have out: "ArgvQuote (p @ replicate n BACKSLASH) CommandLine Force
      = Some (CommandLine @ DQUOTE # escaped p @ replicate (2 * n) BACKSLASH @ [DQUOTE])"
    using quoted by (auto simp add: ArgvQuote_eq)
  show "\<exists>out. ArgvQuote (p @ replicate n BACKSLASH) CommandLine Force = Some out
      \<and> last out = DQUOTE \<and> backslashes_before_closing_quote out = 2 * n"
    unfolding out
    using backslashes_before_closing_quote_escaped [OF assms(1), of CommandLine "2 * n"]
    by simp
next
  have "DQUOTE \<in> set (p @ replicate n BACKSLASH @ DQUOTE # s)" by simp
  then have found:
    "find_first_of (p @ replicate n BACKSLASH @ DQUOTE # s) [SPACE, TAB, NEWLINE, VTAB, DQUOTE]
       \<noteq> None"
    unfolding find_first_of_None by auto
  have "escaped (p @ replicate n BACKSLASH @ DQUOTE # s)
      = escaped p @ replicate (2 * n + 1) BACKSLASH @ DQUOTE # escaped s"
    using assms by (simp add: escaped_append escaped_quote unat_twice_plus_one)
  then have out: "ArgvQuote (p @ replicate n BACKSLASH @ DQUOTE # s) CommandLine Force
      = Some (CommandLine @ DQUOTE # escaped p @ replicate (2 * n + 1) BACKSLASH
                @ DQUOTE # escaped s @ [DQUOTE])"
    using found by (auto simp add: ArgvQuote_eq)
  have u: "escaped p = [] \<or> last (escaped p) \<noteq> BACKSLASH"
  proof (cases "p = []")
    case True
    then show ?thesis by (simp add: escaped_Nil)
  next
    case False
    with assms(1) have "last p \<noteq> BACKSLASH" by simp
    with False escaped_last [of p] show ?thesis by simp
  qed
  show "\<exists>u v. ArgvQuote (p @ replicate n BACKSLASH @ DQUOTE # s) CommandLine Force
                   = Some (CommandLine @ DQUOTE # u @ replicate (2 * n + 1) BACKSLASH
                             @ DQUOTE # v @ [DQUOTE])
                \<and> (u = [] \<or> last u \<noteq> BACKSLASH)
                \<and> ArgvQuote p [] True = Some (DQUOTE # u @ [DQUOTE])
                \<and> ArgvQuote s [] True = Some (DQUOTE # v @ [DQUOTE])"
    apply (rule exI [of _ "escaped p"])
    apply (rule exI [of _ "escaped s"])
    using out u by (simp add: ArgvQuote_eq)
qed

subsection \<open>C8: ArgvQuote terminates\<close>

text \<open>
  Claim C8: the scanning loop returns from every position \<open>It\<close> of every argument and
  with every buffer, and so does \<open>ArgvQuote\<close> on every argument, buffer and force flag.
  (The loop is defined as a partial function, for which not returning would be the value
  \<open>None\<close>; \<open>ArgvQuote_loop_appends\<close> proves by induction on the length of what is left
  of the argument that it returns.)
\<close>

theorem ArgvQuote_terminates:
  "(\<exists>out. ArgvQuote_loop It CommandLine = Some out)
   \<and> (\<exists>out. ArgvQuote Argument CommandLine Force = Some out)"
  by (simp add: ArgvQuote_eq ArgvQuote_loop_escaped)

subsection \<open>C9: ArgvQuote only appends\<close>

text \<open>
  Claim C9: for every argument and force flag there is one encoding such that, for every
  prior content of the buffer, the buffer after the call is the prior content followed
  by that encoding. The prior content is a prefix of the result, unchanged, and the
  encoding does not depend on it. (The argument is passed by \<^verbatim>\<open>const\<close> reference and is
  a value of the model: there is nothing that could change it.)
\<close>

theorem ArgvQuote_only_appends:
  "\<exists>encoding. \<forall>CommandLine.
     ArgvQuote Argument CommandLine Force = Some (CommandLine @ encoding)"
  by (simp only: ArgvQuote_eq) blast

subsection \<open>C10: the exit code as a signed integer\<close>

text \<open>
  Claim C10: \<^verbatim>\<open>GetExitCodeProcess\<close> stores a \<^verbatim>\<open>DWORD\<close> and \<^verbatim>\<open>wmain\<close> returns it as an
  \<^verbatim>\<open>int\<close>. When the child's exit code, read as unsigned, is \<open>2 ^ 31\<close> or more, the
  \<^verbatim>\<open>int\<close> that \<^verbatim>\<open>wmain\<close> returns is that number minus \<open>2 ^ 32\<close>, a negative number and
  not the unsigned value.
\<close>

theorem child_exit_code_signed:
  assumes "3 \<le> length argv" and "stoul sys (argv ! 1) = Converted time_out"
    and "build_command_line argv = Some command_line"
    and "CreateProcessW sys command_line = Inr pi"
    and "WaitForSingleObject sys (hProcess pi) time_out = WAIT_OBJECT_0"
    and "GetExitCodeProcess sys (hProcess pi) = Some error_code"
    and "2 ^ 31 \<le> uint error_code"
  shows "\<exists>r. wmain sys argv = Some r
           \<and> sint (exit_code r) = uint error_code - 2 ^ 32
           \<and> sint (exit_code r) \<noteq> uint error_code"
proof -
  from wmain_created [OF assms(1-4)] assms(5,6)
  have "\<exists>r. wmain sys argv = Some r \<and> exit_code r = error_code"
    by (simp add: HandleGuard_simps wait_switch_def win_defs)
  then obtain r where r: "wmain sys argv = Some r" "exit_code r = error_code" by blast
  have "sint (exit_code r) = uint error_code - 2 ^ 32"
    unfolding r(2) by (rule sint_high [OF assms(7)])
  then show ?thesis using r(1) by simp
qed

text \<open>
  The theorem at a child that ends with the code \<^verbatim>\<open>0xC0000005\<close> (3221225477): \<^verbatim>\<open>wmain\<close>
  returns \<open>- 1073741819\<close>.
\<close>

theorem child_exit_code_signed_witness:
  "(2 :: int) ^ 31 \<le> uint (3221225477 :: 32 word)
   \<and> (\<exists>r. wmain (scripted_os (Converted 100) (Inr \<lparr>hProcess = 4, hThread = 8\<rparr>)
                   WAIT_OBJECT_0 True 0 (Some 3221225477))
                [L ''timeout'', L ''100'', L ''child''] = Some r
         \<and> sint (exit_code r) = - 1073741819)"
proof -
  let ?argv = "[L ''timeout'', L ''100'', L ''child'']"
  let ?pi = "\<lparr>hProcess = 4, hThread = 8\<rparr>"
  let ?sys = "scripted_os (Converted 100) (Inr ?pi) WAIT_OBJECT_0 True 0 (Some 3221225477)"
  have len: "3 \<le> length ?argv" by simp
  have cl: "build_command_line ?argv = Some (L ''child '')"
    by (simp add: build_command_line_def command_line_loop.simps ArgvQuote_def L_def chars_defs)
  have t: "stoul ?sys (?argv ! 1) = Converted 100" by (simp add: scripted_os_def)
  have c: "CreateProcessW ?sys (L ''child '') = Inr ?pi" by (simp add: scripted_os_def)
  have w: "WaitForSingleObject ?sys (hProcess ?pi) 100 = WAIT_OBJECT_0"
    by (simp add: scripted_os_def)
  have g: "GetExitCodeProcess ?sys (hProcess ?pi) = Some 3221225477"
    by (simp add: scripted_os_def)
  have h: "(2 :: int) ^ 31 \<le> uint (3221225477 :: 32 word)" by simp
  from child_exit_code_signed [OF len t cl c w g h] obtain r
    where "wmain ?sys ?argv = Some r"
      and "sint (exit_code r) = uint (3221225477 :: 32 word) - 2 ^ 32"
    by blast
  then have "\<exists>r. wmain ?sys ?argv = Some r \<and> sint (exit_code r) = - 1073741819"
    by simp
  with h show ?thesis by (intro conjI)
qed

end
